theory Spec2Isabelle
  imports Complex_Main "HOL-Library.Word"
begin

section \<open>The ibmnet module of gmond (mod\_ibmnet-aix.c)\<close>

text \<open>
  The module keeps, per Ethernet adapter, one record \<open>netif_devices_t\<close> and four records
  \<open>net_perf_data_t\<close> (bytes received, bytes sent, packets received, packets sent), in
  five global arrays indexed by the adapter. The arrays are lists here, the globals are
  the fields of one record \<open>module_state\<close>, and every function of the source that writes a
  global takes the state and returns the new one.

  Conventions of the embedding:
  \<^item> \<open>long long\<close> is \<open>64 word\<close>: subtraction wraps, \<open>delta < 0\<close> compares the signed value
    \<open>sint delta\<close>, and \<open>(double) delta\<close> is \<open>real_of_int (sint delta)\<close>;
  \<^item> \<open>double\<close> is \<open>real\<close>: the arithmetic of the source (\<open>now - last_read\<close>, \<open>delta / delta_t\<close>,
    \<open>delta_t > threshold\<close>) is read as exact arithmetic, without rounding, infinities or NaN;
  \<^item> the clock (\<open>get_current_time\<close>) and the \<open>entstat\<close> pipeline are the environment: a getter
    takes the clock reading \<open>now\<close> and the outcome \<open>res\<close> that the pipeline has if it is run;
  \<^item> an index is a \<open>nat\<close>; the source never checks an index against \<open>netif_count\<close>, the
    theorems assume it in range where the result depends on it;
  \<^item> \<open>entstat_calls\<close> is a history variable, not a variable of the source: the adapters for
    which \<open>read_device\<close> has started the \<open>entstat\<close> pipeline, in order.
\<close>

subsection \<open>Data\<close>

type_synonym int64 = "64 word"

record netif_devices_t =
  enabled :: bool
  last_read :: real
  threshold :: real
  devName :: string

record net_perf_data_t =
  last_value :: real
  curr_value :: real
  last_total_value :: int64

record module_state =
  netif_count :: nat
  netif_devices :: "netif_devices_t list"
  netif_bytes_received :: "net_perf_data_t list"
  netif_bytes_sent :: "net_perf_data_t list"
  netif_pkts_received :: "net_perf_data_t list"
  netif_pkts_sent :: "net_perf_data_t list"
  Signal_devIndex :: int
  entstat_calls :: "nat list"

definition MIN_THRESHOLD :: real where
  "MIN_THRESHOLD = 5.0"

text \<open>
  What the part of \<open>read_device\<close> between \<open>alarm( 5 )\<close> and \<open>alarm( 0 )\<close> can do:
  \<^item> \<open>Timeout\<close>: SIGALRM arrives before \<open>alarm( 0 )\<close>;
  \<^item> \<open>PopenFailed\<close>: \<open>popen\<close> returns NULL;
  \<^item> \<open>NoOutput\<close>: the first \<open>fgets\<close> returns NULL;
  \<^item> \<open>PacketsLine ps pr\<close>: only the first line is read, \<open>strtoll\<close> gives \<open>ps\<close> and \<open>pr\<close>;
  \<^item> \<open>BothLines ps pr bs br\<close>: both lines are read (packets sent and received, then bytes
    sent and received).

  The numbers are what \<open>strtoll\<close> returns for the two fields of a line. A line without a
  space, where the source writes through the null pointer that \<open>index\<close> returns, is not an
  outcome of the model.
\<close>

datatype entstat_result =
    Timeout
  | PopenFailed
  | NoOutput
  | PacketsLine int64 int64
  | BothLines int64 int64 int64 int64

text \<open>The four local variables of \<open>read_device\<close> after the pipeline has been read.\<close>

record counters =
  bytes_received :: int64
  bytes_sent :: int64
  pkts_received :: int64
  pkts_sent :: int64

text \<open>
  Lines 264 to 299: all four start at \<open>-1LL\<close>; the first line sets the packet counters, the
  second the byte counters. \<open>None\<close> is the timeout, where the variables are never read.
\<close>

fun entstat :: "entstat_result \<Rightarrow> counters option" where
  "entstat Timeout = None"
| "entstat PopenFailed =
     Some \<lparr>bytes_received = - 1, bytes_sent = - 1, pkts_received = - 1, pkts_sent = - 1\<rparr>"
| "entstat NoOutput =
     Some \<lparr>bytes_received = - 1, bytes_sent = - 1, pkts_received = - 1, pkts_sent = - 1\<rparr>"
| "entstat (PacketsLine ps pr) =
     Some \<lparr>bytes_received = - 1, bytes_sent = - 1, pkts_received = pr, pkts_sent = ps\<rparr>"
| "entstat (BothLines ps pr bs br) =
     Some \<lparr>bytes_received = br, bytes_sent = bs, pkts_received = pr, pkts_sent = ps\<rparr>"

subsection \<open>The signal handler\<close>

text \<open>
  \<open>my_sig_handler\<close> for SIGALRM: \<open>netif_devices[Signal_devIndex].enabled = FALSE\<close>. The
  message to syslog is not part of the state. The \<open>longjmp\<close> is in \<open>read_device\<close> below.
  \<open>read_device\<close> installs the handler after it has set \<open>Signal_devIndex\<close>, so the handler
  never runs with the initial \<open>-1\<close>; the write before the array that the source would do
  then is left out.
\<close>

definition my_sig_handler :: "module_state \<Rightarrow> module_state" where
  "my_sig_handler s =
     (if 0 \<le> Signal_devIndex s then
        s\<lparr>netif_devices :=
            (netif_devices s)[nat (Signal_devIndex s) :=
               (netif_devices s ! nat (Signal_devIndex s))\<lparr>enabled := False\<rparr>]\<rparr>
      else s)"

subsection \<open>Sampling: \<open>read_device\<close>\<close>

text \<open>
  The block that \<open>read_device\<close> has once per counter (lines 313 to 337, 339 to 363, 365 to
  389 and 391 to 415 are the same text up to the array and the local variable): \<open>raw\<close> is
  the local variable, \<open>p\<close> the element of the array at \<open>devIndex\<close>.
\<close>

definition update_counter :: "int64 \<Rightarrow> real \<Rightarrow> net_perf_data_t \<Rightarrow> net_perf_data_t" where
  "update_counter raw delta_t p =
     (if raw \<noteq> - 1 then
        let delta = raw - last_total_value p;
            p = (if sint delta < 0 then p\<lparr>curr_value := last_value p\<rparr>
                 else p\<lparr>curr_value := real_of_int (sint delta) / delta_t\<rparr>);
            p = p\<lparr>last_value := curr_value p\<rparr>
        in p\<lparr>last_total_value := raw\<rparr>
      else p)"

text \<open>
  \<open>read_device\<close>. When the alarm fires, the handler runs and jumps back to the \<open>setjmp\<close>,
  which returns non-zero, and the function returns at once: nothing after \<open>alarm( 0 )\<close> is
  executed.
\<close>

definition read_device ::
  "nat \<Rightarrow> real \<Rightarrow> real \<Rightarrow> entstat_result \<Rightarrow> module_state \<Rightarrow> module_state" where
  "read_device devIndex delta_t now res s =
     (let s = s\<lparr>Signal_devIndex := int devIndex,
                entstat_calls := entstat_calls s @ [devIndex]\<rparr>
      in case entstat res of
           None \<Rightarrow> my_sig_handler s
         | Some c \<Rightarrow>
            (let s = s\<lparr>netif_bytes_received := (netif_bytes_received s)[devIndex :=
                         update_counter (bytes_received c) delta_t
                           (netif_bytes_received s ! devIndex)]\<rparr>;
                 s = s\<lparr>netif_bytes_sent := (netif_bytes_sent s)[devIndex :=
                         update_counter (bytes_sent c) delta_t
                           (netif_bytes_sent s ! devIndex)]\<rparr>;
                 s = s\<lparr>netif_pkts_received := (netif_pkts_received s)[devIndex :=
                         update_counter (pkts_received c) delta_t
                           (netif_pkts_received s ! devIndex)]\<rparr>;
                 s = s\<lparr>netif_pkts_sent := (netif_pkts_sent s)[devIndex :=
                         update_counter (pkts_sent c) delta_t
                           (netif_pkts_sent s ! devIndex)]\<rparr>
             in s\<lparr>netif_devices := (netif_devices s)[devIndex :=
                     (netif_devices s ! devIndex)\<lparr>last_read := now\<rparr>]\<rparr>))"

subsection \<open>The getters\<close>

definition time_diff :: "module_state \<Rightarrow> nat \<Rightarrow> real \<Rightarrow> real" where
  "time_diff s netif_index now = now - last_read (netif_devices s ! netif_index)"

definition netif_bytes_received_func ::
  "nat \<Rightarrow> real \<Rightarrow> entstat_result \<Rightarrow> module_state \<Rightarrow> real \<times> module_state" where
  "netif_bytes_received_func netif_index now res s =
     (if enabled (netif_devices s ! netif_index) then
        let delta_t = time_diff s netif_index now;
            s = (if delta_t > threshold (netif_devices s ! netif_index)
                 then read_device netif_index delta_t now res s else s)
        in (curr_value (netif_bytes_received s ! netif_index), s)
      else (- 1.0, s))"

definition netif_bytes_sent_func ::
  "nat \<Rightarrow> real \<Rightarrow> entstat_result \<Rightarrow> module_state \<Rightarrow> real \<times> module_state" where
  "netif_bytes_sent_func netif_index now res s =
     (if enabled (netif_devices s ! netif_index) then
        let delta_t = time_diff s netif_index now;
            s = (if delta_t > threshold (netif_devices s ! netif_index)
                 then read_device netif_index delta_t now res s else s)
        in (curr_value (netif_bytes_sent s ! netif_index), s)
      else (- 1.0, s))"

definition netif_pkts_received_func ::
  "nat \<Rightarrow> real \<Rightarrow> entstat_result \<Rightarrow> module_state \<Rightarrow> real \<times> module_state" where
  "netif_pkts_received_func netif_index now res s =
     (if enabled (netif_devices s ! netif_index) then
        let delta_t = time_diff s netif_index now;
            s = (if delta_t > threshold (netif_devices s ! netif_index)
                 then read_device netif_index delta_t now res s else s)
        in (curr_value (netif_pkts_received s ! netif_index), s)
      else (- 1.0, s))"

definition netif_pkts_sent_func ::
  "nat \<Rightarrow> real \<Rightarrow> entstat_result \<Rightarrow> module_state \<Rightarrow> real \<times> module_state" where
  "netif_pkts_sent_func netif_index now res s =
     (if enabled (netif_devices s ! netif_index) then
        let delta_t = time_diff s netif_index now;
            s = (if delta_t > threshold (netif_devices s ! netif_index)
                 then read_device netif_index delta_t now res s else s)
        in (curr_value (netif_pkts_sent s ! netif_index), s)
      else (- 1.0, s))"

text \<open>
  The last step of \<open>ibmnet_metric_handler\<close> (lines 741 to 753), with the device index found
  and the suffix of the metric name decoded into one of the four kinds.
\<close>

datatype metric_kind = Bytes_received | Bytes_sent | Pkts_received | Pkts_sent

fun netif_func ::
  "metric_kind \<Rightarrow> nat \<Rightarrow> real \<Rightarrow> entstat_result \<Rightarrow> module_state \<Rightarrow> real \<times> module_state" where
  "netif_func Bytes_received = netif_bytes_received_func"
| "netif_func Bytes_sent = netif_bytes_sent_func"
| "netif_func Pkts_received = netif_pkts_received_func"
| "netif_func Pkts_sent = netif_pkts_sent_func"

text \<open>The array and the local variable of \<open>read_device\<close> that belong to a kind.\<close>

fun perf :: "metric_kind \<Rightarrow> module_state \<Rightarrow> net_perf_data_t list" where
  "perf Bytes_received s = netif_bytes_received s"
| "perf Bytes_sent s = netif_bytes_sent s"
| "perf Pkts_received s = netif_pkts_received s"
| "perf Pkts_sent s = netif_pkts_sent s"

fun raw_of :: "metric_kind \<Rightarrow> counters \<Rightarrow> int64" where
  "raw_of Bytes_received c = bytes_received c"
| "raw_of Bytes_sent c = bytes_sent c"
| "raw_of Pkts_received c = pkts_received c"
| "raw_of Pkts_sent c = pkts_sent c"

subsection \<open>Initialisation\<close>

text \<open>
  \<open>detect_and_verify_netif_devices\<close>: \<open>names\<close> is what the \<open>lsdev\<close> pipeline prints, one
  adapter per line. The array comes from \<open>malloc\<close> and \<open>last_read\<close> is not written here:
  \<open>garbage i\<close> is whatever the memory of element \<open>i\<close> holds. The two pipelines are
  taken to agree on the number of adapters, and \<open>malloc\<close> to succeed.
\<close>

definition detect_and_verify_netif_devices ::
  "string list \<Rightarrow> (nat \<Rightarrow> real) \<Rightarrow> netif_devices_t list" where
  "detect_and_verify_netif_devices names garbage =
     map (\<lambda>i. \<lparr>enabled = True, last_read = garbage i, threshold = MIN_THRESHOLD,
                devName = names ! i\<rparr>) [0 ..< length names]"

text \<open>\<open>init_metric\<close>: the array from \<open>apr_pcalloc\<close>, all zero. The metric descriptions
  that it registers are not part of the state.\<close>

definition init_metric :: "nat \<Rightarrow> net_perf_data_t list" where
  "init_metric n = replicate n \<lparr>last_value = 0, curr_value = 0, last_total_value = 0\<rparr>"

text \<open>The body of the loop at the end of \<open>ibmnet_metric_init\<close> (lines 686 to 691).\<close>

definition init_body :: "nat \<Rightarrow> real \<Rightarrow> entstat_result \<Rightarrow> module_state \<Rightarrow> module_state" where
  "init_body i now res s =
     (let s = read_device i 1.0 now res s;
          s = s\<lparr>netif_bytes_received :=
                 (netif_bytes_received s)[i := (netif_bytes_received s ! i)\<lparr>curr_value := 0.0\<rparr>]\<rparr>;
          s = s\<lparr>netif_bytes_sent :=
                 (netif_bytes_sent s)[i := (netif_bytes_sent s ! i)\<lparr>curr_value := 0.0\<rparr>]\<rparr>;
          s = s\<lparr>netif_pkts_received :=
                 (netif_pkts_received s)[i := (netif_pkts_received s ! i)\<lparr>curr_value := 0.0\<rparr>]\<rparr>
      in s\<lparr>netif_pkts_sent :=
             (netif_pkts_sent s)[i := (netif_pkts_sent s ! i)\<lparr>curr_value := 0.0\<rparr>]\<rparr>)"

text \<open>The loop \<open>for (i = 0; i < netif_count; i++)\<close>, from \<open>i\<close> on; \<open>res i\<close> is the outcome of
  the pipeline for adapter \<open>i\<close>.\<close>

function init_loop ::
  "nat \<Rightarrow> nat \<Rightarrow> real \<Rightarrow> (nat \<Rightarrow> entstat_result) \<Rightarrow> module_state \<Rightarrow> module_state" where
  "init_loop n i now res s =
     (if i < n then init_loop n (Suc i) now res (init_body i now (res i) s) else s)"
  by pat_completeness auto
termination
  by (relation "measure (\<lambda>(n, i, now, res, s). n - i)") auto

declare init_loop.simps [simp del]

definition ibmnet_metric_init ::
  "string list \<Rightarrow> (nat \<Rightarrow> real) \<Rightarrow> real \<Rightarrow> (nat \<Rightarrow> entstat_result) \<Rightarrow> module_state" where
  "ibmnet_metric_init names garbage now res =
     (let s = \<lparr>netif_count = length names,
               netif_devices = detect_and_verify_netif_devices names garbage,
               netif_bytes_received = init_metric (length names),
               netif_bytes_sent = init_metric (length names),
               netif_pkts_received = init_metric (length names),
               netif_pkts_sent = init_metric (length names),
               Signal_devIndex = - 1,
               entstat_calls = []\<rparr>
      in init_loop (netif_count s) 0 now res s)"

subsection \<open>Runs and reachable states\<close>

text \<open>The arrays all have \<open>netif_count\<close> elements.\<close>

definition wf_state :: "module_state \<Rightarrow> bool" where
  "wf_state s \<longleftrightarrow>
     length (netif_devices s) = netif_count s \<and>
     length (netif_bytes_received s) = netif_count s \<and>
     length (netif_bytes_sent s) = netif_count s \<and>
     length (netif_pkts_received s) = netif_count s \<and>
     length (netif_pkts_sent s) = netif_count s"

text \<open>
  gmond calls the getters one at a time. A call is the kind, the adapter, the clock reading
  and the outcome of the pipeline if the call samples; a run returns what each call
  returned and the last state.
\<close>

type_synonym getter_call = "metric_kind \<times> nat \<times> real \<times> entstat_result"

fun run_getters :: "getter_call list \<Rightarrow> module_state \<Rightarrow> real list \<times> module_state" where
  "run_getters [] s = ([], s)"
| "run_getters ((k, i, now, res) # cs) s =
     (let (v, s') = netif_func k i now res s;
          (vs, s'') = run_getters cs s'
      in (v # vs, s''))"

text \<open>The states of the module: after \<open>ibmnet_metric_init\<close>, and after each getter call.\<close>

inductive reachable :: "module_state \<Rightarrow> bool" where
  init: "reachable (ibmnet_metric_init names garbage now res)"
| getter: "reachable s \<Longrightarrow> i < netif_count s \<Longrightarrow> reachable (snd (netif_func k i now res s))"

text \<open>
  Two adapters after \<open>ibmnet_metric_init\<close> at time 0, where \<open>entstat\<close> printed
  \<open>10 20\<close> and \<open>500 1000\<close> for both.
\<close>

definition ent_state :: module_state where
  "ent_state =
     \<lparr>netif_count = 2,
      netif_devices =
        [\<lparr>enabled = True, last_read = 0, threshold = 5, devName = ''ent0''\<rparr>,
         \<lparr>enabled = True, last_read = 0, threshold = 5, devName = ''ent1''\<rparr>],
      netif_bytes_received =
        [\<lparr>last_value = 1000, curr_value = 0, last_total_value = 1000\<rparr>,
         \<lparr>last_value = 1000, curr_value = 0, last_total_value = 1000\<rparr>],
      netif_bytes_sent =
        [\<lparr>last_value = 500, curr_value = 0, last_total_value = 500\<rparr>,
         \<lparr>last_value = 500, curr_value = 0, last_total_value = 500\<rparr>],
      netif_pkts_received =
        [\<lparr>last_value = 20, curr_value = 0, last_total_value = 20\<rparr>,
         \<lparr>last_value = 20, curr_value = 0, last_total_value = 20\<rparr>],
      netif_pkts_sent =
        [\<lparr>last_value = 10, curr_value = 0, last_total_value = 10\<rparr>,
         \<lparr>last_value = 10, curr_value = 0, last_total_value = 10\<rparr>],
      Signal_devIndex = 1,
      entstat_calls = [0, 1]\<rparr>"

text \<open>The same after a sample of \<open>ent1\<close> at time 6 that timed out.\<close>

definition ent_state_off :: module_state where
  "ent_state_off =
     \<lparr>netif_count = 2,
      netif_devices =
        [\<lparr>enabled = True, last_read = 0, threshold = 5, devName = ''ent0''\<rparr>,
         \<lparr>enabled = False, last_read = 0, threshold = 5, devName = ''ent1''\<rparr>],
      netif_bytes_received =
        [\<lparr>last_value = 1000, curr_value = 0, last_total_value = 1000\<rparr>,
         \<lparr>last_value = 1000, curr_value = 0, last_total_value = 1000\<rparr>],
      netif_bytes_sent =
        [\<lparr>last_value = 500, curr_value = 0, last_total_value = 500\<rparr>,
         \<lparr>last_value = 500, curr_value = 0, last_total_value = 500\<rparr>],
      netif_pkts_received =
        [\<lparr>last_value = 20, curr_value = 0, last_total_value = 20\<rparr>,
         \<lparr>last_value = 20, curr_value = 0, last_total_value = 20\<rparr>],
      netif_pkts_sent =
        [\<lparr>last_value = 10, curr_value = 0, last_total_value = 10\<rparr>,
         \<lparr>last_value = 10, curr_value = 0, last_total_value = 10\<rparr>],
      Signal_devIndex = 1,
      entstat_calls = [0, 1, 1]\<rparr>"

text \<open>
  Two adapters after \<open>ibmnet_metric_init\<close> at time 0, where the sample of \<open>ent1\<close> timed out:
  \<open>ent1\<close> is disabled, its \<open>last_read\<close> is what \<open>malloc\<close> left (here 0), and its four
  elements are the zeros of \<open>apr_pcalloc\<close>.
\<close>

definition ent_state_init_off :: module_state where
  "ent_state_init_off =
     \<lparr>netif_count = 2,
      netif_devices =
        [\<lparr>enabled = True, last_read = 0, threshold = 5, devName = ''ent0''\<rparr>,
         \<lparr>enabled = False, last_read = 0, threshold = 5, devName = ''ent1''\<rparr>],
      netif_bytes_received =
        [\<lparr>last_value = 1000, curr_value = 0, last_total_value = 1000\<rparr>,
         \<lparr>last_value = 0, curr_value = 0, last_total_value = 0\<rparr>],
      netif_bytes_sent =
        [\<lparr>last_value = 500, curr_value = 0, last_total_value = 500\<rparr>,
         \<lparr>last_value = 0, curr_value = 0, last_total_value = 0\<rparr>],
      netif_pkts_received =
        [\<lparr>last_value = 20, curr_value = 0, last_total_value = 20\<rparr>,
         \<lparr>last_value = 0, curr_value = 0, last_total_value = 0\<rparr>],
      netif_pkts_sent =
        [\<lparr>last_value = 10, curr_value = 0, last_total_value = 10\<rparr>,
         \<lparr>last_value = 0, curr_value = 0, last_total_value = 0\<rparr>],
      Signal_devIndex = 1,
      entstat_calls = [0, 1]\<rparr>"

text \<open>
  The invariant of the reachable states: the arrays have \<open>netif_count\<close> elements, every
  threshold is \<open>MIN_THRESHOLD\<close>, no \<open>last_value\<close> is negative, and \<open>curr_value\<close> is
  \<open>last_value\<close> or the zero of the initialisation.
\<close>

definition state_inv :: "module_state \<Rightarrow> bool" where
  "state_inv s \<longleftrightarrow>
     wf_state s \<and>
     (\<forall>d \<in> set (netif_devices s). threshold d = MIN_THRESHOLD) \<and>
     (\<forall>k. \<forall>p \<in> set (perf k s).
        0 \<le> last_value p \<and> (curr_value p = last_value p \<or> curr_value p = 0))"

section \<open>Properties\<close>

subsection \<open>What \<open>read_device\<close> and the getters change\<close>

lemma perf_read_device:
  "entstat res = Some c \<Longrightarrow>
   perf k (read_device i dt now res s) =
     (perf k s)[i := update_counter (raw_of k c) dt (perf k s ! i)]"
  by (cases k) (simp_all add: read_device_def Let_def)

lemma perf_read_device_None:
  "entstat res = None \<Longrightarrow> perf k (read_device i dt now res s) = perf k s"
  by (cases k) (simp_all add: read_device_def my_sig_handler_def)

lemma devices_read_device:
  "entstat res = Some c \<Longrightarrow>
   netif_devices (read_device i dt now res s) =
     (netif_devices s)[i := (netif_devices s ! i)\<lparr>last_read := now\<rparr>]"
  by (simp add: read_device_def Let_def)

lemma devices_read_device_None:
  "entstat res = None \<Longrightarrow>
   netif_devices (read_device i dt now res s) =
     (netif_devices s)[i := (netif_devices s ! i)\<lparr>enabled := False\<rparr>]"
  by (simp add: read_device_def my_sig_handler_def)

lemma entstat_calls_read_device:
  "entstat_calls (read_device i dt now res s) = entstat_calls s @ [i]"
  by (simp add: read_device_def my_sig_handler_def Let_def split: option.split)

lemma netif_count_read_device:
  "netif_count (read_device i dt now res s) = netif_count s"
  by (simp add: read_device_def my_sig_handler_def Let_def split: option.split)

lemma read_device_Some:
  "entstat res = Some c \<Longrightarrow>
   read_device i dt now res s =
     s\<lparr>Signal_devIndex := int i,
       entstat_calls := entstat_calls s @ [i],
       netif_bytes_received := (netif_bytes_received s)[i :=
         update_counter (bytes_received c) dt (netif_bytes_received s ! i)],
       netif_bytes_sent := (netif_bytes_sent s)[i :=
         update_counter (bytes_sent c) dt (netif_bytes_sent s ! i)],
       netif_pkts_received := (netif_pkts_received s)[i :=
         update_counter (pkts_received c) dt (netif_pkts_received s ! i)],
       netif_pkts_sent := (netif_pkts_sent s)[i :=
         update_counter (pkts_sent c) dt (netif_pkts_sent s ! i)],
       netif_devices := (netif_devices s)[i := (netif_devices s ! i)\<lparr>last_read := now\<rparr>]\<rparr>"
  by (simp add: read_device_def Let_def)

lemma read_device_None:
  "entstat res = None \<Longrightarrow>
   read_device i dt now res s =
     s\<lparr>Signal_devIndex := int i,
       entstat_calls := entstat_calls s @ [i],
       netif_devices := (netif_devices s)[i := (netif_devices s ! i)\<lparr>enabled := False\<rparr>]\<rparr>"
  by (simp add: read_device_def my_sig_handler_def)


text \<open>The four getters are one function up to the array they read.\<close>

lemma netif_func_eq:
  "netif_func k i now res s =
     (if enabled (netif_devices s ! i) then
        (if time_diff s i now > threshold (netif_devices s ! i)
         then (curr_value (perf k (read_device i (time_diff s i now) now res s) ! i),
               read_device i (time_diff s i now) now res s)
         else (curr_value (perf k s ! i), s))
      else (- 1, s))"
  by (cases k)
     (simp_all add: netif_bytes_received_func_def netif_bytes_sent_func_def
        netif_pkts_received_func_def netif_pkts_sent_func_def Let_def)

lemma getter_disabled:
  "\<not> enabled (netif_devices s ! i) \<Longrightarrow> netif_func k i now res s = (- 1, s)"
  by (simp add: netif_func_eq)

lemmas getter_defs =
  netif_bytes_received_func_def netif_bytes_sent_func_def
  netif_pkts_received_func_def netif_pkts_sent_func_def Let_def time_diff_def

text \<open>Without overflow the wrapping subtraction is the subtraction of the values.\<close>

lemma sint_diff:
  fixes a b :: int64
  assumes "0 \<le> sint b" and "sint b \<le> sint a"
  shows "sint (a - b) = sint a - sint b"
proof -
  have ub: "sint a < 2 ^ 63"
    using sint_lt [of a] by simp
  have "sint (a - b) = signed_take_bit 63 (sint a - sint b)"
    by (simp add: sint_word_ariths word_size)
  also have "\<dots> = sint a - sint b"
    using assms ub by (intro signed_take_bit_int_eq_self) auto
  finally show ?thesis .
qed

subsection \<open>The rate of a counter\<close>

text \<open>
  Claim C1. When \<open>read_device\<close> reads a counter that is available (not \<open>-1\<close>) and the
  difference \<open>delta\<close> to \<open>last_total_value\<close> is not negative, the new rate is \<open>delta\<close>
  divided by the elapsed time \<open>delta_t\<close>; \<open>curr_value\<close> and \<open>last_value\<close> are both set to
  it and \<open>last_total_value\<close> to the counter read. Here \<open>delta\<close> is the difference as the
  machine computes it; where the old counter is not negative and not above the new one,
  it is the difference of the two values. The division is the division of \<open>real\<close>.
\<close>

theorem rate_is_delta_over_elapsed:
  assumes res: "entstat res = Some c"
    and i: "i < length (perf k s)"
    and avail: "raw_of k c \<noteq> - 1"
    and delta: "0 \<le> sint (raw_of k c - last_total_value (perf k s ! i))"
  shows "perf k (read_device i delta_t now res s) ! i =
           \<lparr>last_value =
              real_of_int (sint (raw_of k c - last_total_value (perf k s ! i))) / delta_t,
            curr_value =
              real_of_int (sint (raw_of k c - last_total_value (perf k s ! i))) / delta_t,
            last_total_value = raw_of k c\<rparr> \<and>
         (0 \<le> sint (last_total_value (perf k s ! i)) \<and>
          sint (last_total_value (perf k s ! i)) \<le> sint (raw_of k c) \<longrightarrow>
          curr_value (perf k (read_device i delta_t now res s) ! i) =
            (real_of_int (sint (raw_of k c)) -
             real_of_int (sint (last_total_value (perf k s ! i)))) / delta_t)"
proof -
  have upd: "perf k (read_device i delta_t now res s) ! i =
               update_counter (raw_of k c) delta_t (perf k s ! i)"
    using i by (simp add: perf_read_device [OF res])
  have "\<not> sint (raw_of k c - last_total_value (perf k s ! i)) < 0"
    using delta by simp
  then have val: "update_counter (raw_of k c) delta_t (perf k s ! i) =
           \<lparr>last_value =
              real_of_int (sint (raw_of k c - last_total_value (perf k s ! i))) / delta_t,
            curr_value =
              real_of_int (sint (raw_of k c - last_total_value (perf k s ! i))) / delta_t,
            last_total_value = raw_of k c\<rparr>"
    using avail by (simp add: update_counter_def Let_def)
  show ?thesis
    by (simp add: upd val sint_diff)
qed

text \<open>The scenario of the specification: 1000 bytes, then 3000 bytes 5 seconds later.\<close>

theorem rate_is_delta_over_elapsed_witness:
  "entstat (BothLines 10 20 500 3000) =
     Some \<lparr>bytes_received = 3000, bytes_sent = 500, pkts_received = 20, pkts_sent = 10\<rparr> \<and>
   (0::nat) < length (perf Bytes_received ent_state) \<and>
   perf Bytes_received (read_device 0 5 5 (BothLines 10 20 500 3000) ent_state) ! 0 =
     \<lparr>last_value = 400, curr_value = 400, last_total_value = 3000\<rparr>"
  using rate_is_delta_over_elapsed [of "BothLines 10 20 500 3000"
      "\<lparr>bytes_received = 3000, bytes_sent = 500, pkts_received = 20, pkts_sent = 10\<rparr>"
      0 Bytes_received ent_state 5 5]
  by (simp add: ent_state_def)

text \<open>
  Claim C2. When the counter read is available and the difference to \<open>last_total_value\<close>
  is negative, the rate is the previous rate \<open>last_value\<close>, which stays as it is, and
  \<open>last_total_value\<close> is still set to the counter read: the element changes in
  \<open>curr_value\<close> and \<open>last_total_value\<close> only.
\<close>

theorem negative_delta_holds_rate:
  assumes res: "entstat res = Some c"
    and i: "i < length (perf k s)"
    and avail: "raw_of k c \<noteq> - 1"
    and delta: "sint (raw_of k c - last_total_value (perf k s ! i)) < 0"
  shows "perf k (read_device i delta_t now res s) ! i =
           (perf k s ! i)\<lparr>curr_value := last_value (perf k s ! i),
                          last_total_value := raw_of k c\<rparr>"
proof -
  have "perf k (read_device i delta_t now res s) ! i =
          update_counter (raw_of k c) delta_t (perf k s ! i)"
    using i by (simp add: perf_read_device [OF res])
  also have "\<dots> = (perf k s ! i)\<lparr>curr_value := last_value (perf k s ! i),
                                 last_total_value := raw_of k c\<rparr>"
    using avail delta by (simp add: update_counter_def Let_def)
  finally show ?thesis .
qed

theorem negative_delta_holds_rate_witness:
  "sint ((900 :: int64) - 1000) < 0 \<and>
   perf Bytes_received (read_device 0 6 6 (BothLines 10 20 500 900) ent_state) ! 0 =
     \<lparr>last_value = 1000, curr_value = 1000, last_total_value = 900\<rparr>"
  using negative_delta_holds_rate [of "BothLines 10 20 500 900"
      "\<lparr>bytes_received = 900, bytes_sent = 500, pkts_received = 20, pkts_sent = 10\<rparr>"
      0 Bytes_received ent_state 6 6]
  by (simp add: ent_state_def)

text \<open>
  Claim C7. A counter that \<open>read_device\<close> finds unavailable (\<open>-1\<close>) leaves the array of
  its kind as it was, in all three fields, and a getter that sampled returns the rate
  it had; when \<open>popen\<close> fails or the pipeline prints nothing, this holds for all four
  kinds.
\<close>

theorem unavailable_counter_untouched:
  "(entstat res = Some c \<and> raw_of k c = - 1 \<longrightarrow>
      perf k (read_device i delta_t now res s) = perf k s \<and>
      (enabled (netif_devices s ! i) \<longrightarrow>
         fst (netif_func k i now res s) = curr_value (perf k s ! i))) \<and>
   (res = PopenFailed \<or> res = NoOutput \<longrightarrow>
      (\<forall>k'. perf k' (read_device i delta_t now res s) = perf k' s))"
proof -
  have one: "perf k (read_device i dt now res s) = perf k s"
    if "entstat res = Some c" and "raw_of k c = - 1" for k c dt
    using that by (simp add: perf_read_device update_counter_def)
  have all: "perf k' (read_device i delta_t now res s) = perf k' s"
    if "res = PopenFailed \<or> res = NoOutput" for k'
  proof -
    let ?c = "\<lparr>bytes_received = - 1, bytes_sent = - 1, pkts_received = - 1, pkts_sent = - 1\<rparr>"
    have "entstat res = Some ?c"
      using that by auto
    moreover have "raw_of k' ?c = - 1"
      by (cases k') simp_all
    ultimately show ?thesis
      by (rule one)
  qed
  show ?thesis
    using one all by (simp add: netif_func_eq)
qed

theorem unavailable_counter_untouched_witness:
  "perf Bytes_sent (read_device 0 6 6 (PacketsLine 15 25) ent_state) = perf Bytes_sent ent_state \<and>
   fst (netif_func Bytes_sent 0 6 (PacketsLine 15 25) ent_state) = 0 \<and>
   perf Pkts_sent (read_device 0 6 6 NoOutput ent_state) = perf Pkts_sent ent_state"
  using unavailable_counter_untouched [of "PacketsLine 15 25"
      "\<lparr>bytes_received = - 1, bytes_sent = - 1, pkts_received = 25, pkts_sent = 15\<rparr>"
      Bytes_sent 0 6 6 ent_state]
    unavailable_counter_untouched [of NoOutput
      "\<lparr>bytes_received = - 1, bytes_sent = - 1, pkts_received = - 1, pkts_sent = - 1\<rparr>"
      Pkts_sent 0 6 6 ent_state]
  by (simp add: ent_state_def)

subsection \<open>The invariant\<close>

lemma update_counter_inv:
  assumes "0 < dt" and "0 \<le> last_value p" and "curr_value p = last_value p \<or> curr_value p = 0"
  shows "0 \<le> last_value (update_counter raw dt p) \<and>
         (curr_value (update_counter raw dt p) = last_value (update_counter raw dt p) \<or>
          curr_value (update_counter raw dt p) = 0)"
proof -
  have "0 \<le> real_of_int (sint d) / dt" if "\<not> sint d < 0" for d :: int64
    using that assms(1) by (intro divide_nonneg_pos) (simp_all del: of_int_sint)
  then show ?thesis
    using assms by (simp add: update_counter_def Let_def del: of_int_sint)
qed

lemma wf_state_read_device: "wf_state s \<Longrightarrow> wf_state (read_device i dt now res s)"
  by (cases "entstat res") (simp_all add: wf_state_def read_device_Some read_device_None)

lemma state_inv_read_device:
  assumes inv: "state_inv s" and dt: "0 < dt"
  shows "state_inv (read_device i dt now res s)"
proof -
  let ?s' = "read_device i dt now res s"
  have wf: "wf_state ?s'"
    using inv by (simp add: state_inv_def wf_state_read_device)
  have thr: "threshold d = MIN_THRESHOLD" if "d \<in> set (netif_devices ?s')" for d
  proof (cases "i < length (netif_devices s)")
    case True
    then have "threshold (netif_devices s ! i) = MIN_THRESHOLD"
      using inv by (simp add: state_inv_def)
    moreover have "d \<in> set (netif_devices s) \<or>
        d = (netif_devices s ! i)\<lparr>last_read := now\<rparr> \<or>
        d = (netif_devices s ! i)\<lparr>enabled := False\<rparr>"
      using that set_update_subset_insert [of "netif_devices s" i]
      by (cases "entstat res")
         (auto simp: devices_read_device devices_read_device_None)
    ultimately show ?thesis
      using inv by (auto simp: state_inv_def)
  next
    case False
    then have "netif_devices ?s' = netif_devices s"
      by (cases "entstat res")
         (simp_all add: devices_read_device devices_read_device_None list_update_beyond)
    then show ?thesis
      using that inv by (simp add: state_inv_def)
  qed
  have rate: "0 \<le> last_value p \<and> (curr_value p = last_value p \<or> curr_value p = 0)"
    if "p \<in> set (perf k ?s')" for k p
  proof (cases "entstat res")
    case None
    then show ?thesis
      using that inv by (simp add: perf_read_device_None state_inv_def)
  next
    case (Some c)
    show ?thesis
    proof (cases "i < length (perf k s)")
      case True
      then have old: "0 \<le> last_value (perf k s ! i) \<and>
          (curr_value (perf k s ! i) = last_value (perf k s ! i) \<or> curr_value (perf k s ! i) = 0)"
        using inv nth_mem [OF True] unfolding state_inv_def by blast
      have "p \<in> set (perf k s) \<or> p = update_counter (raw_of k c) dt (perf k s ! i)"
        using that set_update_subset_insert [of "perf k s" i]
        by (auto simp: perf_read_device [OF Some])
      then show ?thesis
        using old update_counter_inv [OF dt, of "perf k s ! i" "raw_of k c"] inv
        by (auto simp: state_inv_def)
    next
      case False
      then have "perf k ?s' = perf k s"
        by (simp add: perf_read_device [OF Some] list_update_beyond)
      then show ?thesis
        using that inv by (simp add: state_inv_def)
    qed
  qed
  show ?thesis
    unfolding state_inv_def using wf thr rate by blast
qed

lemma state_inv_getter:
  assumes inv: "state_inv s" and i: "i < netif_count s"
  shows "state_inv (snd (netif_func k i now res s))"
proof -
  have "threshold (netif_devices s ! i) = MIN_THRESHOLD"
    using inv i by (simp add: state_inv_def wf_state_def)
  then have "0 < time_diff s i now" if "threshold (netif_devices s ! i) < time_diff s i now"
    using that by (simp add: MIN_THRESHOLD_def)
  then show ?thesis
    using inv by (simp add: netif_func_eq state_inv_read_device)
qed


lemma perf_init_body:
  "perf k (init_body i now res s) =
     (perf k (read_device i 1 now res s))
       [i := (perf k (read_device i 1 now res s) ! i)\<lparr>curr_value := 0\<rparr>]"
  by (cases k) (simp_all add: init_body_def Let_def)

lemma devices_init_body:
  "netif_devices (init_body i now res s) = netif_devices (read_device i 1 now res s)"
  by (simp add: init_body_def Let_def)

lemma netif_count_init_body: "netif_count (init_body i now res s) = netif_count s"
  by (simp add: init_body_def Let_def netif_count_read_device)

lemma state_inv_init_body:
  assumes "state_inv s"
  shows "state_inv (init_body i now res s)"
proof -
  let ?r = "read_device i 1 now res s"
  have r: "state_inv ?r"
    using assms by (simp add: state_inv_read_device)
  have wf: "wf_state (init_body i now res s)"
    using r perf_init_body [of _ i now res s]
    by (simp add: state_inv_def wf_state_def devices_init_body netif_count_init_body
          netif_count_read_device flip: perf.simps)
  have rate: "0 \<le> last_value p \<and> (curr_value p = last_value p \<or> curr_value p = 0)"
    if "p \<in> set (perf k (init_body i now res s))" for k p
  proof (cases "i < length (perf k ?r)")
    case True
    then have "0 \<le> last_value (perf k ?r ! i)"
      using r nth_mem [OF True] unfolding state_inv_def by blast
    moreover have "p \<in> set (perf k ?r) \<or> p = (perf k ?r ! i)\<lparr>curr_value := 0\<rparr>"
      using that set_update_subset_insert [of "perf k ?r" i]
      by (auto simp: perf_init_body)
    ultimately show ?thesis
      using r by (auto simp: state_inv_def)
  next
    case False
    then have "perf k (init_body i now res s) = perf k ?r"
      by (simp add: perf_init_body list_update_beyond)
    then show ?thesis
      using that r by (simp add: state_inv_def)
  qed
  show ?thesis
    unfolding state_inv_def using wf rate r
    by (simp add: devices_init_body state_inv_def)
qed

lemma state_inv_init_loop:
  "state_inv s \<Longrightarrow> state_inv (init_loop n i now res s)"
proof (induction n i now res s rule: init_loop.induct)
  case (1 n i now res s)
  show ?case
  proof (cases "i < n")
    case True
    then show ?thesis
      using 1 by (subst init_loop.simps) (simp add: state_inv_init_body)
  next
    case False
    then show ?thesis
      using 1 by (subst init_loop.simps) simp
  qed
qed

lemma state_inv_init: "state_inv (ibmnet_metric_init names garbage now res)"
proof -
  have "state_inv
     \<lparr>netif_count = length names,
      netif_devices = detect_and_verify_netif_devices names garbage,
      netif_bytes_received = init_metric (length names),
      netif_bytes_sent = init_metric (length names),
      netif_pkts_received = init_metric (length names),
      netif_pkts_sent = init_metric (length names),
      Signal_devIndex = - 1, entstat_calls = []\<rparr>"
    unfolding state_inv_def wf_state_def
  proof (intro conjI allI ballI)
    fix k p
    assume "p \<in> set (perf k
     \<lparr>netif_count = length names,
      netif_devices = detect_and_verify_netif_devices names garbage,
      netif_bytes_received = init_metric (length names),
      netif_bytes_sent = init_metric (length names),
      netif_pkts_received = init_metric (length names),
      netif_pkts_sent = init_metric (length names),
      Signal_devIndex = - 1, entstat_calls = []\<rparr>)"
    then have p: "p = \<lparr>last_value = 0, curr_value = 0, last_total_value = 0\<rparr>"
      by (cases k) (auto simp: init_metric_def)
    show "0 \<le> last_value p" and "curr_value p = last_value p \<or> curr_value p = 0"
      by (simp_all add: p)
  qed (auto simp: detect_and_verify_netif_devices_def init_metric_def)
  then show ?thesis
    by (simp add: ibmnet_metric_init_def state_inv_init_loop)
qed

lemma reachable_state_inv: "reachable s \<Longrightarrow> state_inv s"
proof (induction rule: reachable.induct)
  case (init names garbage now res)
  show ?case by (rule state_inv_init)
next
  case (getter s i k now res)
  then show ?case by (simp add: state_inv_getter)
qed

subsection \<open>Initialisation, element by element\<close>

lemma length_perf_read_device: "length (perf k (read_device i dt now res s)) = length (perf k s)"
  by (cases "entstat res") (simp_all add: perf_read_device perf_read_device_None)








lemma ent_state_is_init:
  "ibmnet_metric_init [''ent0'', ''ent1''] (\<lambda>i. 0) 0 (\<lambda>i. BothLines 10 20 500 1000) = ent_state"
  by (simp add: ibmnet_metric_init_def init_loop.simps init_body_def read_device_Some
        update_counter_def detect_and_verify_netif_devices_def init_metric_def
        MIN_THRESHOLD_def ent_state_def)

lemma ent_state_off_eq: "read_device 1 6 6 Timeout ent_state = ent_state_off"
  by (simp add: read_device_None ent_state_def ent_state_off_def)

subsection \<open>Disabled adapters\<close>

lemma getter_step_disabled:
  assumes dis: "\<not> enabled (netif_devices s ! x)"
    and step: "netif_func k i now res s = (v, s')"
  shows "\<not> enabled (netif_devices s' ! x)"
    and "i = x \<Longrightarrow> v = - 1"
    and "\<exists>ys. entstat_calls s' = entstat_calls s @ ys \<and> x \<notin> set ys"
proof -
  show "i = x \<Longrightarrow> v = - 1"
    using dis step by (simp add: netif_func_eq)
  show "\<not> enabled (netif_devices s' ! x)"
  proof (cases "i = x")
    case True
    then show ?thesis using dis step by (simp add: netif_func_eq)
  next
    case False
    then show ?thesis
      using dis step
      by (cases "entstat res")
         (auto simp: netif_func_eq devices_read_device devices_read_device_None
               split: if_splits)
  qed
  show "\<exists>ys. entstat_calls s' = entstat_calls s @ ys \<and> x \<notin> set ys"
  proof (cases "i = x")
    case True
    then have "s' = s" using dis step by (simp add: netif_func_eq)
    then show ?thesis by simp
  next
    case False
    then show ?thesis
      using step by (auto simp: netif_func_eq entstat_calls_read_device split: if_splits)
  qed
qed

text \<open>
  Claim C3. Once the \<open>enabled\<close> flag of adapter \<open>x\<close> is false, in every run of getter calls
  that follows the flag stays false, every call for \<open>x\<close>, of any kind, returns \<open>-1.0\<close>,
  and the \<open>entstat\<close> pipeline is not started for \<open>x\<close> again: the history of the calls
  grows by entries for other adapters only.
\<close>

theorem disabled_is_terminal:
  assumes "\<not> enabled (netif_devices s ! x)"
    and "run_getters cs s = (vs, s')"
  shows "\<not> enabled (netif_devices s' ! x) \<and>
         length vs = length cs \<and>
         (\<forall>j < length cs. fst (snd (cs ! j)) = x \<longrightarrow> vs ! j = - 1) \<and>
         take (length (entstat_calls s)) (entstat_calls s') = entstat_calls s \<and>
         x \<notin> set (drop (length (entstat_calls s)) (entstat_calls s'))"
  using assms
proof (induction cs arbitrary: s vs s')
  case Nil
  then show ?case by simp
next
  case (Cons call cs)
  obtain k i now res where call: "call = (k, i, now, res)"
    by (cases call) auto
  obtain v s1 where step: "netif_func k i now res s = (v, s1)"
    by (cases "netif_func k i now res s") auto
  obtain ws s2 where rest: "run_getters cs s1 = (ws, s2)"
    by (cases "run_getters cs s1") auto
  from Cons.prems(2) call step rest have vs: "vs = v # ws" and s': "s' = s2"
    by simp_all
  note one = getter_step_disabled [OF Cons.prems(1) step]
  from one(3) obtain ys where ys: "entstat_calls s1 = entstat_calls s @ ys" "x \<notin> set ys"
    by blast
  note ih = Cons.IH [OF one(1) rest]
  have "\<not> enabled (netif_devices s' ! x)"
    using ih s' by simp
  moreover have "length vs = length (call # cs)"
    using ih vs by simp
  moreover have "\<forall>j < length (call # cs). fst (snd ((call # cs) ! j)) = x \<longrightarrow> vs ! j = - 1"
  proof (intro allI impI)
    fix j
    assume j: "j < length (call # cs)" and x: "fst (snd ((call # cs) ! j)) = x"
    show "vs ! j = - 1"
    proof (cases j)
      case 0
      then show ?thesis using x call vs one(2) by simp
    next
      case (Suc j')
      then show ?thesis using j x vs ih by simp
    qed
  qed
  moreover have "take (length (entstat_calls s)) (entstat_calls s') = entstat_calls s"
  proof -
    have "take (length (entstat_calls s1)) (entstat_calls s2) = entstat_calls s1"
      using ih by simp
    then have "take (length (entstat_calls s)) (take (length (entstat_calls s1)) (entstat_calls s2))
                 = take (length (entstat_calls s)) (entstat_calls s1)"
      by simp
    then show ?thesis
      using ys s' by (simp add: min_def)
  qed
  moreover have "x \<notin> set (drop (length (entstat_calls s)) (entstat_calls s'))"
  proof -
    have eq: "entstat_calls s2 = entstat_calls s1 @ drop (length (entstat_calls s1)) (entstat_calls s2)"
      using ih by (metis append_take_drop_id)
    have "drop (length (entstat_calls s)) (entstat_calls s2) =
            ys @ drop (length (entstat_calls s1)) (entstat_calls s2)"
      by (subst eq) (simp add: ys)
    then show ?thesis
      using ys ih s' by simp
  qed
  ultimately show ?case by blast
qed

theorem disabled_is_terminal_witness:
  "\<not> enabled (netif_devices ent_state_off ! Suc 0) \<and>
   fst (run_getters
          [(Bytes_sent, Suc 0, 7, NoOutput), (Pkts_sent, 0, 20, BothLines 50 60 700 800),
           (Bytes_received, Suc 0, 30, NoOutput)] ent_state_off) = [- 1, 2, - 1] \<and>
   entstat_calls (snd (run_getters
          [(Bytes_sent, Suc 0, 7, NoOutput), (Pkts_sent, 0, 20, BothLines 50 60 700 800),
           (Bytes_received, Suc 0, 30, NoOutput)] ent_state_off)) = [0, 1, 1, 0]"
proof -
  let ?s = "snd (netif_func Pkts_sent 0 20 (BothLines 50 60 700 800) ent_state_off)"
  have h: "\<not> enabled (netif_devices ent_state_off ! Suc 0)"
    by (simp add: ent_state_off_def)
  have 1: "netif_func Bytes_sent (Suc 0) 7 NoOutput ent_state_off = (- 1, ent_state_off)"
    using h by (rule getter_disabled)
  have 2: "fst (netif_func Pkts_sent 0 20 (BothLines 50 60 700 800) ent_state_off) = 2"
    by (simp add: getter_defs read_device_Some update_counter_def ent_state_off_def)
  have 3: "\<not> enabled (netif_devices ?s ! Suc 0)"
    by (simp add: getter_defs read_device_Some ent_state_off_def)
  have 4: "entstat_calls ?s = [0, 1, 1, 0]"
    by (simp add: getter_defs read_device_Some ent_state_off_def)
  have 5: "netif_func Bytes_received (Suc 0) 30 NoOutput ?s = (- 1, ?s)"
    using 3 by (rule getter_disabled)
  have run: "run_getters
          [(Bytes_sent, Suc 0, 7, NoOutput), (Pkts_sent, 0, 20, BothLines 50 60 700 800),
           (Bytes_received, Suc 0, 30, NoOutput)] ent_state_off = ([- 1, 2, - 1], ?s)"
    using 2 by (simp add: 1 5 split_beta del: netif_func.simps)
  show ?thesis
    using h disabled_is_terminal [OF h run] unfolding run
    by (simp add: 4 del: netif_func.simps)
qed

subsection \<open>The time of the last sample\<close>

text \<open>
  Claim C5, as stated, fails: a getter call for \<open>ent1\<close> at time 6 samples, the sample
  times out, and \<open>last_read\<close> is still the 0 of the sample before. The handler jumps
  back to the \<open>setjmp\<close> and \<open>read_device\<close> returns before \<open>last_read = now\<close>.
\<close>

theorem timeout_keeps_last_read_counterexample:
  "enabled (netif_devices ent_state ! 1) \<and>
   threshold (netif_devices ent_state ! 1) < time_diff ent_state 1 6 \<and>
   entstat_calls (snd (netif_func Bytes_sent 1 6 Timeout ent_state)) = entstat_calls ent_state @ [1] \<and>
   last_read (netif_devices (snd (netif_func Bytes_sent 1 6 Timeout ent_state)) ! 1) \<noteq> 6"
  by (simp add: getter_defs read_device_def my_sig_handler_def ent_state_def)

text \<open>
  Claim C5, amended. A getter call, and \<open>read_device\<close> itself, set \<open>last_read\<close> of the
  adapter sampled to \<open>now\<close> when the sample does not time out, and leave every other
  \<open>last_read\<close> as it is; a sample that times out, and a getter call that does not sample,
  leave all of them as they are.
\<close>

theorem last_read_changes:
  assumes "j < length (netif_devices s)"
  shows "last_read (netif_devices (snd (netif_func k i now res s)) ! j) =
           (if j = i \<and> enabled (netif_devices s ! i) \<and>
               threshold (netif_devices s ! i) < time_diff s i now \<and> res \<noteq> Timeout
            then now else last_read (netif_devices s ! j)) \<and>
         last_read (netif_devices (read_device i delta_t now res s) ! j) =
           (if j = i \<and> res \<noteq> Timeout then now else last_read (netif_devices s ! j))"
proof -
  have rd: "last_read (netif_devices (read_device i dt now res s) ! j) =
              (if j = i \<and> res \<noteq> Timeout then now else last_read (netif_devices s ! j))" for dt
  proof (cases "entstat res")
    case None
    then have "res = Timeout" by (cases res) simp_all
    then show ?thesis
      using assms None by (cases "j = i") (simp_all add: devices_read_device_None)
  next
    case (Some c)
    then have "res \<noteq> Timeout" by auto
    then show ?thesis
      using assms by (cases "j = i") (simp_all add: devices_read_device [OF Some])
  qed
  show ?thesis
    using rd by (auto simp: netif_func_eq)
qed

theorem last_read_changes_witness:
  "(0::nat) < length (netif_devices ent_state) \<and>
   last_read (netif_devices (snd (netif_func Pkts_sent 0 7 NoOutput ent_state)) ! 0) = 7 \<and>
   last_read (netif_devices (snd (netif_func Pkts_sent 0 7 Timeout ent_state)) ! 0) = 0 \<and>
   last_read (netif_devices (snd (netif_func Pkts_sent 0 4 NoOutput ent_state)) ! 0) = 0"
  using last_read_changes [of 0 ent_state Pkts_sent 0 7 NoOutput]
    last_read_changes [of 0 ent_state Pkts_sent 0 7 Timeout]
    last_read_changes [of 0 ent_state Pkts_sent 0 4 NoOutput]
  by (simp add: getter_defs read_device_def my_sig_handler_def ent_state_def)

subsection \<open>Inside the resample threshold\<close>

text \<open>
  Claim C4, as stated, fails where \<open>lastRate\<close> is \<open>last_value\<close>: the getter returns
  \<open>curr_value\<close>. In the state after \<open>ibmnet_metric_init\<close> (\<open>ent_state_is_init\<close>) a call at
  time 3, inside the threshold, returns the 0 that the initialisation wrote into
  \<open>curr_value\<close>, and \<open>last_value\<close> is 1000.
\<close>

theorem cached_rate_counterexample:
  "enabled (netif_devices ent_state ! 0) \<and>
   time_diff ent_state 0 3 \<le> threshold (netif_devices ent_state ! 0) \<and>
   fst (netif_func Bytes_received 0 3 NoOutput ent_state) \<noteq>
     last_value (perf Bytes_received ent_state ! 0)"
  by (simp add: getter_defs ent_state_def)

text \<open>
  Claim C4, amended. For an enabled adapter, when \<open>now - last_read\<close> is at most the
  threshold, the getter of every kind changes nothing, so it does not sample, and
  returns the cached \<open>curr_value\<close> of its kind; in a reachable state that value is
  \<open>last_value\<close> or the 0 of the initialisation.
\<close>

theorem cached_rate_returned:
  assumes "enabled (netif_devices s ! i)"
    and "time_diff s i now \<le> threshold (netif_devices s ! i)"
  shows "netif_func k i now res s = (curr_value (perf k s ! i), s) \<and>
         (reachable s \<and> i < netif_count s \<longrightarrow>
            curr_value (perf k s ! i) = last_value (perf k s ! i) \<or>
            curr_value (perf k s ! i) = 0)"
proof -
  have "netif_func k i now res s = (curr_value (perf k s ! i), s)"
    using assms by (simp add: netif_func_eq)
  moreover have "curr_value (perf k s ! i) = last_value (perf k s ! i) \<or>
      curr_value (perf k s ! i) = 0" if "reachable s" and "i < netif_count s"
  proof -
    have inv: "state_inv s"
      using that(1) by (rule reachable_state_inv)
    then have "i < length (perf k s)"
      using that(2) by (cases k) (simp_all add: state_inv_def wf_state_def)
    then have "perf k s ! i \<in> set (perf k s)"
      by (rule nth_mem)
    then show ?thesis
      using inv unfolding state_inv_def by blast
  qed
  ultimately show ?thesis by blast
qed

theorem cached_rate_returned_witness:
  "enabled (netif_devices ent_state ! 0) \<and>
   time_diff ent_state 0 3 \<le> threshold (netif_devices ent_state ! 0) \<and>
   netif_func Bytes_received 0 3 NoOutput ent_state = (0, ent_state) \<and>
   reachable ent_state"
proof -
  have r: "reachable ent_state"
    using reachable.init [of "[''ent0'', ''ent1'']" "\<lambda>i. 0" 0 "\<lambda>i. BothLines 10 20 500 1000"]
    by (simp only: ent_state_is_init)
  have e: "enabled (netif_devices ent_state ! 0)"
    by (simp add: ent_state_def)
  have t: "time_diff ent_state 0 3 \<le> threshold (netif_devices ent_state ! 0)"
    by (simp add: time_diff_def ent_state_def)
  have "curr_value (perf Bytes_received ent_state ! 0) = 0"
    by (simp add: ent_state_def)
  then show ?thesis
    using r e t cached_rate_returned [OF e t, of Bytes_received NoOutput] by simp
qed

subsection \<open>Beyond the resample threshold\<close>

text \<open>
  Claim C6, as stated, fails when the sample times out: the getter call for \<open>ent0\<close> at
  time 9 samples, and \<open>last_read\<close> is not set to 9.
\<close>

theorem resample_timeout_counterexample:
  "enabled (netif_devices ent_state ! 0) \<and>
   threshold (netif_devices ent_state ! 0) < time_diff ent_state 0 9 \<and>
   last_read (netif_devices (snd (netif_func Pkts_received 0 9 Timeout ent_state)) ! 0) \<noteq> 9"
  by (simp add: getter_defs read_device_None ent_state_def)

text \<open>
  Claim C6, amended. For an enabled adapter, when \<open>now - last_read\<close> is above the
  threshold, the getter of any kind starts the \<open>entstat\<close> pipeline exactly once, and the
  state it leaves does not depend on the kind asked for. When the pipeline does not time
  out, the element of each of the four arrays at this adapter is updated from its counter
  with the same elapsed time (a counter that is \<open>-1\<close> leaves its element, see C7),
  \<open>last_read\<close> is set to \<open>now\<close>, and the getter returns the new \<open>curr_value\<close> of its kind.
\<close>

theorem resample_all_four:
  assumes "enabled (netif_devices s ! i)"
    and "threshold (netif_devices s ! i) < time_diff s i now"
  shows "entstat_calls (snd (netif_func k i now res s)) = entstat_calls s @ [i] \<and>
         snd (netif_func k' i now res s) = snd (netif_func k i now res s) \<and>
         (\<forall>c. entstat res = Some c \<longrightarrow>
            (\<forall>m. perf m (snd (netif_func k i now res s)) =
               (perf m s)[i := update_counter (raw_of m c) (time_diff s i now) (perf m s ! i)]) \<and>
            netif_devices (snd (netif_func k i now res s)) =
              (netif_devices s)[i := (netif_devices s ! i)\<lparr>last_read := now\<rparr>] \<and>
            (i < length (netif_devices s) \<longrightarrow>
               last_read (netif_devices (snd (netif_func k i now res s)) ! i) = now) \<and>
            fst (netif_func k i now res s) =
              curr_value (perf k (snd (netif_func k i now res s)) ! i))"
  using assms
  by (simp add: netif_func_eq entstat_calls_read_device perf_read_device devices_read_device)

theorem resample_all_four_witness:
  "enabled (netif_devices ent_state ! 0) \<and>
   threshold (netif_devices ent_state ! 0) < time_diff ent_state 0 10 \<and>
   entstat_calls (snd (netif_func Bytes_sent 0 10 (BothLines 110 220 1500 3000) ent_state)) =
     [0, 1, 0] \<and>
   perf Bytes_received (snd (netif_func Bytes_sent 0 10 (BothLines 110 220 1500 3000) ent_state)) ! 0 =
     \<lparr>last_value = 200, curr_value = 200, last_total_value = 3000\<rparr> \<and>
   perf Pkts_sent (snd (netif_func Bytes_sent 0 10 (BothLines 110 220 1500 3000) ent_state)) ! 0 =
     \<lparr>last_value = 10, curr_value = 10, last_total_value = 110\<rparr> \<and>
   last_read (netif_devices (snd (netif_func Bytes_sent 0 10 (BothLines 110 220 1500 3000) ent_state)) ! 0) = 10"
proof -
  let ?res = "BothLines 110 220 1500 3000"
  let ?c = "\<lparr>bytes_received = 3000, bytes_sent = 1500, pkts_received = 220, pkts_sent = 110\<rparr>"
  let ?s = "snd (netif_func Bytes_sent 0 10 ?res ent_state)"
  have e: "enabled (netif_devices ent_state ! 0)"
    by (simp add: ent_state_def)
  have t: "threshold (netif_devices ent_state ! 0) < time_diff ent_state 0 10"
    by (simp add: time_diff_def ent_state_def)
  have c: "entstat ?res = Some ?c"
    by simp
  note all = resample_all_four [OF e t, of Bytes_sent ?res Bytes_sent]
  from all have calls: "entstat_calls ?s = entstat_calls ent_state @ [0]"
    by blast
  from all c have br: "perf Bytes_received ?s =
      (perf Bytes_received ent_state)[0 := update_counter (raw_of Bytes_received ?c)
         (time_diff ent_state 0 10) (perf Bytes_received ent_state ! 0)]"
    by blast
  from all c have ps: "perf Pkts_sent ?s =
      (perf Pkts_sent ent_state)[0 := update_counter (raw_of Pkts_sent ?c)
         (time_diff ent_state 0 10) (perf Pkts_sent ent_state ! 0)]"
    by blast
  from all c have lr: "0 < length (netif_devices ent_state) \<longrightarrow>
      last_read (netif_devices ?s ! 0) = 10"
    by blast
  have "entstat_calls ?s = [0, 1, 0]"
    unfolding calls by (simp add: ent_state_def)
  moreover have "perf Bytes_received ?s ! 0 =
      \<lparr>last_value = 200, curr_value = 200, last_total_value = 3000\<rparr>"
    unfolding br by (simp add: time_diff_def update_counter_def ent_state_def)
  moreover have "perf Pkts_sent ?s ! 0 =
      \<lparr>last_value = 10, curr_value = 10, last_total_value = 110\<rparr>"
    unfolding ps by (simp add: time_diff_def update_counter_def ent_state_def)
  moreover have "last_read (netif_devices ?s ! 0) = 10"
    using lr by (simp add: ent_state_def)
  ultimately show ?thesis
    using e t by blast
qed

subsection \<open>The timeout\<close>

text \<open>
  Claim C9. A sample of adapter \<open>x\<close> that times out changes, of the five arrays, only
  the \<open>enabled\<close> flag of \<open>netif_devices[x]\<close>: the record of every other adapter \<open>y\<close> and
  the four arrays of rates are as before, for all adapters. The same holds for the handler
  alone, where \<open>x\<close> is \<open>Signal_devIndex\<close>.
\<close>

theorem disabling_touches_one_flag:
  "netif_devices (read_device x delta_t now Timeout s) =
     (netif_devices s)[x := (netif_devices s ! x)\<lparr>enabled := False\<rparr>] \<and>
   (y \<noteq> x \<longrightarrow> netif_devices (read_device x delta_t now Timeout s) ! y = netif_devices s ! y) \<and>
   (\<forall>k. perf k (read_device x delta_t now Timeout s) = perf k s) \<and>
   netif_count (read_device x delta_t now Timeout s) = netif_count s \<and>
   (y \<noteq> nat (Signal_devIndex s) \<longrightarrow> netif_devices (my_sig_handler s) ! y = netif_devices s ! y) \<and>
   (\<forall>k. perf k (my_sig_handler s) = perf k s) \<and>
   netif_count (my_sig_handler s) = netif_count s"
proof -
  have "perf k (my_sig_handler s) = perf k s" for k
    by (cases k) (simp_all add: my_sig_handler_def)
  then show ?thesis
    by (simp add: devices_read_device_None perf_read_device_None netif_count_read_device
          my_sig_handler_def)
qed

theorem disabling_touches_one_flag_witness:
  "netif_devices (read_device 1 6 6 Timeout ent_state) ! 0 = netif_devices ent_state ! 0 \<and>
   netif_devices (read_device 1 6 6 Timeout ent_state) ! 1 =
     \<lparr>enabled = False, last_read = 0, threshold = 5, devName = ''ent1''\<rparr> \<and>
   perf Bytes_sent (read_device 1 6 6 Timeout ent_state) = perf Bytes_sent ent_state"
  using disabling_touches_one_flag [of 1 6 6 ent_state 0]
  by (simp add: ent_state_def)

subsection \<open>Rates are never negative\<close>



text \<open>
  Claim C8. In every reachable state no \<open>last_value\<close> is negative. A getter call changes
  a \<open>last_value\<close> only through the update block of \<open>read_device\<close>: the call sampled this
  adapter, the pipeline did not time out, the counter of the kind was available, and the
  element is what the block computes. The zeroing at the end of the initialisation
  leaves \<open>last_value\<close> as \<open>read_device\<close> left it. The preconditions of the claim are not
  needed as hypotheses: the block divides only when the difference is not negative, and
  in a reachable state the elapsed time is above the threshold of 5 seconds, or the 1.0
  of the initialisation.
\<close>

theorem last_value_nonneg:
  assumes r: "reachable s" and i: "i < netif_count s"
  shows "0 \<le> last_value (perf k s ! i) \<and>
         (last_value (perf k (snd (netif_func k' j now res s)) ! i) \<noteq> last_value (perf k s ! i) \<longrightarrow>
            j = i \<and> enabled (netif_devices s ! i) \<and>
            threshold (netif_devices s ! i) < time_diff s i now \<and>
            (\<exists>c. entstat res = Some c \<and> raw_of k c \<noteq> - 1 \<and>
                 perf k (snd (netif_func k' j now res s)) ! i =
                   update_counter (raw_of k c) (time_diff s i now) (perf k s ! i))) \<and>
         last_value (perf k (init_body j now res s) ! i) =
           last_value (perf k (read_device j 1 now res s) ! i)"
proof -
  have inv: "state_inv s"
    using r by (rule reachable_state_inv)
  then have len: "i < length (perf k s)"
    using i by (cases k) (simp_all add: state_inv_def wf_state_def)
  then have "perf k s ! i \<in> set (perf k s)"
    by (rule nth_mem)
  then have nonneg: "0 \<le> last_value (perf k s ! i)"
    using inv unfolding state_inv_def by blast
  let ?s' = "snd (netif_func k' j now res s)"
  have frame: "j = i \<and> enabled (netif_devices s ! i) \<and>
            threshold (netif_devices s ! i) < time_diff s i now \<and>
            (\<exists>c. entstat res = Some c \<and> raw_of k c \<noteq> - 1 \<and>
                 perf k ?s' ! i = update_counter (raw_of k c) (time_diff s i now) (perf k s ! i))"
    if diff: "last_value (perf k ?s' ! i) \<noteq> last_value (perf k s ! i)"
  proof -
    have sampled: "enabled (netif_devices s ! j) \<and> threshold (netif_devices s ! j) < time_diff s j now"
      using diff by (auto simp: netif_func_eq split: if_splits)
    then have s': "?s' = read_device j (time_diff s j now) now res s"
      by (simp add: netif_func_eq)
    obtain c where c: "entstat res = Some c"
      using diff unfolding s' by (cases "entstat res") (auto simp: perf_read_device_None)
    have upd: "perf k ?s' = (perf k s)[j := update_counter (raw_of k c) (time_diff s j now) (perf k s ! j)]"
      unfolding s' by (rule perf_read_device [OF c])
    have diff': "last_value ((perf k s)[j := update_counter (raw_of k c) (time_diff s j now)
        (perf k s ! j)] ! i) \<noteq> last_value (perf k s ! i)"
      using diff unfolding upd .
    have ji: "j = i"
      using diff' by (cases "j = i") simp_all
    have "raw_of k c \<noteq> - 1"
      using diff' len unfolding ji by (auto simp: update_counter_def)
    then show ?thesis
      using sampled c upd len ji by simp
  qed
  have "i < length (perf k (read_device j 1 now res s))"
    using len by (simp add: length_perf_read_device)
  then have init: "last_value (perf k (init_body j now res s) ! i) =
           last_value (perf k (read_device j 1 now res s) ! i)"
    by (cases "i = j") (simp_all add: perf_init_body)
  show ?thesis
    using nonneg frame init by blast
qed

theorem last_value_nonneg_witness:
  "reachable ent_state \<and> (0::nat) < netif_count ent_state \<and>
   0 \<le> last_value (perf Bytes_received ent_state ! 0) \<and>
   last_value (perf Bytes_received
      (snd (netif_func Pkts_sent 0 10 (BothLines 110 220 1500 3000) ent_state)) ! 0) = 200"
proof -
  have r: "reachable ent_state"
    using reachable.init [of "[''ent0'', ''ent1'']" "\<lambda>i. 0" 0 "\<lambda>i. BothLines 10 20 500 1000"]
    by (simp only: ent_state_is_init)
  have i: "(0::nat) < netif_count ent_state"
    by (simp add: ent_state_def)
  have "last_value (perf Bytes_received
      (snd (netif_func Pkts_sent 0 10 (BothLines 110 220 1500 3000) ent_state)) ! 0) = 200"
    by (simp add: getter_defs read_device_Some update_counter_def ent_state_def)
  then show ?thesis
    using r i last_value_nonneg [OF r i, of Bytes_received Pkts_sent 0 10
        "BothLines 110 220 1500 3000"]
    by simp
qed

subsection \<open>The rates after the initialisation\<close>

lemma ent_state_init_off_is_init:
  "ibmnet_metric_init [''ent0'', ''ent1''] (\<lambda>i. 0) 0
     (\<lambda>i. if i = 0 then BothLines 10 20 500 1000 else Timeout) = ent_state_init_off"
  by (simp add: ibmnet_metric_init_def init_loop.simps init_body_def read_device_Some
        read_device_None update_counter_def detect_and_verify_netif_devices_def
        init_metric_def MIN_THRESHOLD_def ent_state_init_off_def)




end
